theory Spec2Isabelle
  imports Complex_Main
begin

section \<open>JavaScript values\<close>

text \<open>
  The plugin receives Signal K deltas whose \<^verbatim>\<open>value\<close> fields are arbitrary JSON. The
  handlers test them with \<^verbatim>\<open>!x\<close>, \<^verbatim>\<open>"state" in x\<close>, \<^verbatim>\<open>x.state === "..."\<close> and
  \<^verbatim>\<open>typeof x != 'undefined'\<close>, so the model keeps the JavaScript value and writes out
  what each of these operators does on it, the \<^verbatim>\<open>TypeError\<close> included. Numbers are reals
  (rounding and the infinities of IEEE doubles are outside the model) with \<open>JNaN\<close> apart.
  An object is an association list read with \<open>map_of\<close>.
\<close>

datatype jsval =
    JUndefined
  | JNull
  | JBool bool
  | JNum real
  | JNaN
  | JStr string
  | JArr "jsval list"
  | JObj "(string \<times> jsval) list"

text \<open>
  What a handler may raise: the \<^verbatim>\<open>TypeError\<close> of the language, and whatever a call into
  the \<^verbatim>\<open>geolib\<close> package throws.
\<close>

datatype error = TypeError | GeolibError

text \<open>The truth value of \<^verbatim>\<open>x\<close> in \<^verbatim>\<open>!x\<close>, \<^verbatim>\<open>x && y\<close> and \<^verbatim>\<open>if (x)\<close>.\<close>

fun truthy :: "jsval \<Rightarrow> bool" where
  "truthy JUndefined = False"
| "truthy JNull = False"
| "truthy (JBool b) = b"
| "truthy (JNum r) = (r \<noteq> 0)"
| "truthy JNaN = False"
| "truthy (JStr s) = (s \<noteq> [])"
| "truthy (JArr xs) = True"
| "truthy (JObj kvs) = True"

text \<open>
  \<^verbatim>\<open>k in x\<close>: a \<^verbatim>\<open>TypeError\<close> unless \<^verbatim>\<open>x\<close> is an object. The handlers only ask for
  \<^verbatim>\<open>"state"\<close>, which no array has.
\<close>

fun js_in :: "string \<Rightarrow> jsval \<Rightarrow> error + bool" where
  "js_in k (JObj kvs) = Inr (k \<in> fst ` set kvs)"
| "js_in k (JArr xs) = Inr False"
| "js_in k v = Inl TypeError"

text \<open>
  \<^verbatim>\<open>x.k\<close>: a \<^verbatim>\<open>TypeError\<close> on \<^verbatim>\<open>undefined\<close> and \<^verbatim>\<open>null\<close>, the property or
  \<^verbatim>\<open>undefined\<close> on an object, \<^verbatim>\<open>undefined\<close> on the other values (the source reads
  \<^verbatim>\<open>state\<close>, \<^verbatim>\<open>data\<close>, \<^verbatim>\<open>position\<close>, \<^verbatim>\<open>latitude\<close> and \<^verbatim>\<open>longitude\<close> only, none of
  which a primitive or an array has).
\<close>

fun get_prop :: "jsval \<Rightarrow> string \<Rightarrow> error + jsval" where
  "get_prop JUndefined k = Inl TypeError"
| "get_prop JNull k = Inl TypeError"
| "get_prop (JObj kvs) k = Inr (case map_of kvs k of None \<Rightarrow> JUndefined | Some v \<Rightarrow> v)"
| "get_prop v k = Inr JUndefined"

text \<open>\<^verbatim>\<open>"state" in v && v.state === lit\<close>, evaluated left to right.\<close>

definition state_is :: "jsval \<Rightarrow> string \<Rightarrow> error + bool" where
  "state_is v lit =
     (case js_in ''state'' v of
        Inl e \<Rightarrow> Inl e
      | Inr b \<Rightarrow>
          if b then (case get_prop v ''state'' of Inl e \<Rightarrow> Inl e | Inr x \<Rightarrow> Inr (x = JStr lit))
          else Inr False)"

section \<open>Deltas\<close>

text \<open>
  A delta is \<^verbatim>\<open>{ updates: [ { values: [ { path, value } ] } ] }\<close>. The handlers guard
  \<^verbatim>\<open>delta.updates\<close> and \<^verbatim>\<open>update.values\<close> with \<^verbatim>\<open>if\<close>, so both may be absent.
\<close>

record pathvalue =
  vp_path :: string
  vp_value :: jsval

record update =
  upd_values :: "pathvalue list option"

record delta =
  dl_updates :: "update list option"

definition mk_delta :: "pathvalue list \<Rightarrow> delta" where
  "mk_delta vps = \<lparr>dl_updates = Some [\<lparr>upd_values = Some vps\<rparr>]\<rparr>"

section \<open>The plugin's variables and the host\<close>

text \<open>
  The repository holds two variants of the tracking plugin: the second module of
  \<^verbatim>\<open>src/index.js\<close> and \<^verbatim>\<open>src/unnamed/part_000\<close>. They differ in the guard of the
  \<^verbatim>\<open>"normal"\<close> branch, in the position handler and in the capacity of the track. The
  first module of \<^verbatim>\<open>src/index.js\<close>, which stores a waypoint and redirects the course,
  has neither a track nor a position watch and is not modelled.
\<close>

datatype variant = IndexJs | Part000

text \<open>
  Modelled from the spec: the host's subscription manager, which is not in the
  repository. The host hands out unsubscribe functions by pushing them on the array given
  to \<^verbatim>\<open>subscribe\<close>. A handle is such a function: it names the feed it was issued for,
  and calling it takes it out of the host's live set.
\<close>

datatype topic = Notifications | Position

datatype handle = Handle topic nat

fun handle_topic :: "handle \<Rightarrow> topic" where
  "handle_topic (Handle t i) = t"

record sample =
  position :: jsval
  time :: int

text \<open>
  \<open>onStop\<close>, \<open>track\<close>, \<open>mobNotification\<close> and \<open>unsubscribes\<close> are the module's variables
  and \<^verbatim>\<open>plugin.unsubscribes\<close>. The other three fields are the host seen from the plugin:
  the payloads given to \<^verbatim>\<open>app.handleMessage\<close> (oldest first), the handles issued and not
  yet called, and the number of handles issued so far.
\<close>

record state =
  onStop :: "handle list"
  track :: "sample list"
  mobNotification :: jsval
  unsubscribes :: "handle list"
  messages :: "delta list"
  live :: "handle list"
  issued :: nat

definition init :: state where
  "init = \<lparr>onStop = [], track = [], mobNotification = JNull, unsubscribes = [],
            messages = [], live = [], issued = 0\<rparr>"

definition handleMessage :: "delta \<Rightarrow> state \<Rightarrow> state" where
  "handleMessage d s = s\<lparr>messages := messages s @ [d]\<rparr>"

text \<open>Calling every function of an array of handles: \<^verbatim>\<open>hs.forEach(f => f())\<close>.\<close>

definition call_handles :: "handle list \<Rightarrow> state \<Rightarrow> state" where
  "call_handles hs s = s\<lparr>live := filter (\<lambda>h. h \<notin> set hs) (live s)\<rparr>"

text \<open>
  \<^verbatim>\<open>app.subscriptionmanager.subscribe(command, array, onError, onDelta)\<close>: the host
  pushes one fresh handle for each row of \<^verbatim>\<open>command.subscribe\<close>, before it returns.
  The error callback (\<^verbatim>\<open>app.error\<close>, \<^verbatim>\<open>app.setProviderError\<close>) touches none of the
  plugin's variables and is left out.
\<close>

definition fresh_handles :: "topic \<Rightarrow> nat \<Rightarrow> state \<Rightarrow> handle list" where
  "fresh_handles t rows s = map (Handle t) [issued s ..< issued s + rows]"

section \<open>Watching the position\<close>

definition cleared :: delta where
  "cleared = mk_delta
     [\<lparr>vp_path = ''navigation.mob.position'', vp_value = JNull\<rparr>,
      \<lparr>vp_path = ''navigation.mob.time'', vp_value = JNull\<rparr>,
      \<lparr>vp_path = ''navigation.mob.elapsed'', vp_value = JNull\<rparr>,
      \<lparr>vp_path = ''navigation.mob.distance'', vp_value = JNull\<rparr>,
      \<lparr>vp_path = ''navigation.mob.bearingTrue'', vp_value = JNull\<rparr>]"

definition stopWatchingPosition :: "state \<Rightarrow> state" where
  "stopWatchingPosition s =
     handleMessage cleared ((call_handles (onStop s) s)\<lparr>onStop := [], track := []\<rparr>)"

text \<open>
  \<^verbatim>\<open>src/index.js\<close> subscribes to \<^verbatim>\<open>navigation.position\<close>, \<^verbatim>\<open>part_000\<close> to
  \<^verbatim>\<open>navigation.headingTrue\<close> as well.
\<close>

fun position_rows :: "variant \<Rightarrow> nat" where
  "position_rows IndexJs = 1"
| "position_rows Part000 = 2"

text \<open>
  \<^verbatim>\<open>mobNotification.data.position\<close> is evaluated before \<^verbatim>\<open>app.handleMessage\<close> is called,
  so a \<^verbatim>\<open>TypeError\<close> there leaves the state as it was on entry. \<open>now\<close> is what
  \<^verbatim>\<open>Date.now()\<close> returns.
\<close>

definition startWatchingPosition :: "variant \<Rightarrow> int \<Rightarrow> state \<Rightarrow> error option \<times> state" where
  "startWatchingPosition var now s =
     (if length (onStop s) > 0 then (None, s)
      else
        (case get_prop (mobNotification s) ''data'' of
           Inl e \<Rightarrow> (Some e, s)
         | Inr d \<Rightarrow>
             (case get_prop d ''position'' of
                Inl e \<Rightarrow> (Some e, s)
              | Inr p \<Rightarrow>
                  (let s1 = handleMessage
                         (mk_delta
                            [\<lparr>vp_path = ''navigation.mob.position'', vp_value = p\<rparr>,
                             \<lparr>vp_path = ''navigation.mob.time'', vp_value = JNum (of_int now)\<rparr>])
                         s;
                       s2 = s1\<lparr>track := []\<rparr>;
                       hs = fresh_handles Position (position_rows var) s2
                   in (None, s2\<lparr>onStop := onStop s2 @ hs, live := live s2 @ hs,
                                 issued := issued s2 + position_rows var\<rparr>)))))"

section \<open>The notification handler\<close>

text \<open>\<^verbatim>\<open>xs.forEach(f)\<close> where \<^verbatim>\<open>f\<close> may throw: the first exception ends the loop.\<close>

fun forEach :: "('a \<Rightarrow> state \<Rightarrow> error option \<times> state) \<Rightarrow> 'a list \<Rightarrow> state \<Rightarrow> error option \<times> state" where
  "forEach f [] s = (None, s)"
| "forEach f (x # xs) s =
     (case f x s of
        (Some e, s') \<Rightarrow> (Some e, s')
      | (None, s') \<Rightarrow> forEach f xs s')"

text \<open>
  The body of the innermost loop. The first test is
  \<^verbatim>\<open>!mobNotification && "state" in vp.value && vp.value.state === "emergency"\<close>; the second
  is \<^verbatim>\<open>mobNotification && "state" in vp.value && vp.value.state === "normal"\<close> in
  \<^verbatim>\<open>src/index.js\<close> and \<^verbatim>\<open>"state" in vp.value && vp.value.state === "normal"\<close> in
  \<^verbatim>\<open>part_000\<close>.
\<close>

definition emergency_test :: "jsval \<Rightarrow> state \<Rightarrow> error + bool" where
  "emergency_test v s =
     (if \<not> truthy (mobNotification s) then state_is v ''emergency'' else Inr False)"

fun normal_test :: "variant \<Rightarrow> jsval \<Rightarrow> state \<Rightarrow> error + bool" where
  "normal_test IndexJs v s =
     (if truthy (mobNotification s) then state_is v ''normal'' else Inr False)"
| "normal_test Part000 v s = state_is v ''normal''"

definition notification_vp :: "variant \<Rightarrow> int \<Rightarrow> pathvalue \<Rightarrow> state \<Rightarrow> error option \<times> state" where
  "notification_vp var now vp s =
     (if vp_path vp = ''notifications.mob'' then
        (case emergency_test (vp_value vp) s of
           Inl e \<Rightarrow> (Some e, s)
         | Inr b \<Rightarrow>
             if b then startWatchingPosition var now (s\<lparr>mobNotification := vp_value vp\<rparr>)
             else
               (case normal_test var (vp_value vp) s of
                  Inl e \<Rightarrow> (Some e, s)
                | Inr c \<Rightarrow>
                    if c then (None, (stopWatchingPosition s)\<lparr>mobNotification := JNull\<rparr>)
                    else (None, s)))
      else (None, s))"

definition notification_update :: "variant \<Rightarrow> int \<Rightarrow> update \<Rightarrow> state \<Rightarrow> error option \<times> state" where
  "notification_update var now u s =
     (case upd_values u of
        None \<Rightarrow> (None, s)
      | Some vps \<Rightarrow> forEach (notification_vp var now) vps s)"

definition notification_handler :: "variant \<Rightarrow> int \<Rightarrow> delta \<Rightarrow> state \<Rightarrow> error option \<times> state" where
  "notification_handler var now d s =
     (case dl_updates d of
        None \<Rightarrow> (None, s)
      | Some us \<Rightarrow> forEach (notification_update var now) us s)"

section \<open>Navigation math\<close>

text \<open>
  What the plugin takes from outside the repository when it computes a delta: the three
  functions of the \<^verbatim>\<open>geolib\<close> package, the reading of a number out of a string or an
  array, and the host's \<^verbatim>\<open>app.getSelfPath\<close>. They are parameters of the model. A call
  into \<^verbatim>\<open>geolib\<close> returns a value or throws (the library throws on coordinates it
  cannot read); nothing is assumed about which, nor about the value.
\<close>

record runtime =
  getDistance :: "jsval \<Rightarrow> jsval \<Rightarrow> jsval \<Rightarrow> error + jsval"
  computeDestinationPoint :: "jsval \<Rightarrow> jsval \<Rightarrow> jsval \<Rightarrow> error + jsval"
  getRhumbLineBearing :: "jsval \<Rightarrow> jsval \<Rightarrow> error + jsval"
  parseNumber :: "jsval \<Rightarrow> real option"
  getSelfPath :: "string \<Rightarrow> jsval"

text \<open>
  The arithmetic of JavaScript numbers, as real arithmetic: the rounding, the overflow and
  the infinities of IEEE doubles are outside the model. \<open>ToNumber\<close> is the coercion of an
  operand, \<open>None\<close> for \<^verbatim>\<open>NaN\<close>; what it gives for a string or an array is the
  runtime's. The source divides by \<^verbatim>\<open>Math.PI\<close>, \<^verbatim>\<open>180.0\<close> and \<^verbatim>\<open>1000\<close> only; a zero
  divisor, which would give an infinity or \<^verbatim>\<open>NaN\<close>, is \<open>JNaN\<close> here.
\<close>

fun ToNumber :: "runtime \<Rightarrow> jsval \<Rightarrow> real option" where
  "ToNumber rt JUndefined = None"
| "ToNumber rt JNull = Some 0"
| "ToNumber rt (JBool b) = Some (if b then 1 else 0)"
| "ToNumber rt (JNum r) = Some r"
| "ToNumber rt JNaN = None"
| "ToNumber rt (JStr s) = parseNumber rt (JStr s)"
| "ToNumber rt (JArr xs) = parseNumber rt (JArr xs)"
| "ToNumber rt (JObj kvs) = None"

definition js_arith :: "(real \<Rightarrow> real \<Rightarrow> jsval) \<Rightarrow> runtime \<Rightarrow> jsval \<Rightarrow> jsval \<Rightarrow> jsval" where
  "js_arith f rt a b =
     (case ToNumber rt a of
        None \<Rightarrow> JNaN
      | Some x \<Rightarrow> (case ToNumber rt b of None \<Rightarrow> JNaN | Some y \<Rightarrow> f x y))"

definition js_times :: "runtime \<Rightarrow> jsval \<Rightarrow> jsval \<Rightarrow> jsval" where
  "js_times = js_arith (\<lambda>x y. JNum (x * y))"

definition js_minus :: "runtime \<Rightarrow> jsval \<Rightarrow> jsval \<Rightarrow> jsval" where
  "js_minus = js_arith (\<lambda>x y. JNum (x - y))"

definition js_divide :: "runtime \<Rightarrow> jsval \<Rightarrow> jsval \<Rightarrow> jsval" where
  "js_divide = js_arith (\<lambda>x y. if y = 0 then JNaN else JNum (x / y))"

definition Math_PI :: jsval where
  "Math_PI = JNum pi"

definition radsToDeg :: "runtime \<Rightarrow> jsval \<Rightarrow> jsval" where
  "radsToDeg rt radians = js_divide rt (js_times rt radians (JNum 180)) Math_PI"

definition degsToRad :: "runtime \<Rightarrow> jsval \<Rightarrow> jsval" where
  "degsToRad rt degrees = js_times rt degrees (js_divide rt Math_PI (JNum 180))"

definition calc_distance :: "runtime \<Rightarrow> jsval \<Rightarrow> jsval \<Rightarrow> jsval \<Rightarrow> jsval \<Rightarrow> error + jsval" where
  "calc_distance rt lat1 lon1 lat2 lon2 =
     getDistance rt
       (JObj [(''latitude'', lat1), (''longitude'', lon1)])
       (JObj [(''latitude'', lat2), (''longitude'', lon2)])
       (JNum (1 / 10))"

definition calc_position_from :: "runtime \<Rightarrow> jsval \<Rightarrow> jsval \<Rightarrow> jsval \<Rightarrow> error + jsval" where
  "calc_position_from rt pos heading distance =
     computeDestinationPoint rt pos distance (radsToDeg rt heading)"

text \<open>\<^verbatim>\<open>typeof x != 'undefined'\<close> holds for every value but \<^verbatim>\<open>undefined\<close>.\<close>

definition computeBowLocation :: "runtime \<Rightarrow> jsval \<Rightarrow> jsval \<Rightarrow> error + jsval" where
  "computeBowLocation rt pos heading =
     (if heading \<noteq> JUndefined then
        (let gps_dist = getSelfPath rt ''sensors.gps.fromBow.value''
         in if gps_dist \<noteq> JUndefined then calc_position_from rt pos heading gps_dist
            else Inr pos)
      else Inr pos)"

text \<open>
  \<^verbatim>\<open>getMOBDelta\<close> has no \<^verbatim>\<open>try\<close>: the first of its steps that raises ends it. The
  steps come in the order of the source: the bow position, the bearing, the four
  coordinates, the distance.
\<close>

definition getMOBDelta :: "runtime \<Rightarrow> int \<Rightarrow> jsval \<Rightarrow> error + delta" where
  "getMOBDelta rt now pos =
     (let mobPosition = getSelfPath rt ''navigation.mob.position.value''
      in if truthy pos \<and> truthy mobPosition then
           (let mobTime = getSelfPath rt ''navigation.mob.time.value''
            in case computeBowLocation rt pos (getSelfPath rt ''navigation.headingTrue.value'') of
                 Inl e \<Rightarrow> Inl e
               | Inr bowPosition \<Rightarrow>
            (case getRhumbLineBearing rt bowPosition mobPosition of
                 Inl e \<Rightarrow> Inl e
               | Inr degrees \<Rightarrow>
            (case get_prop bowPosition ''latitude'' of
                 Inl e \<Rightarrow> Inl e
               | Inr blat \<Rightarrow>
            (case get_prop bowPosition ''longitude'' of
                 Inl e \<Rightarrow> Inl e
               | Inr blon \<Rightarrow>
            (case get_prop mobPosition ''latitude'' of
                 Inl e \<Rightarrow> Inl e
               | Inr mlat \<Rightarrow>
            (case get_prop mobPosition ''longitude'' of
                 Inl e \<Rightarrow> Inl e
               | Inr mlon \<Rightarrow>
            (case calc_distance rt blat blon mlat mlon of
                 Inl e \<Rightarrow> Inl e
               | Inr distance \<Rightarrow>
                   Inr (mk_delta
                     [\<lparr>vp_path = ''navigation.mob.elapsed'',
                       vp_value = js_divide rt (js_minus rt (JNum (of_int now)) mobTime) (JNum 1000)\<rparr>,
                      \<lparr>vp_path = ''navigation.mob.distance'', vp_value = distance\<rparr>,
                      \<lparr>vp_path = ''navigation.mob.bearingTrue'',
                       vp_value = degsToRad rt degrees\<rparr>]))))))))
         else Inr cleared)"

section \<open>The track and the position handler\<close>

fun capacity :: "variant \<Rightarrow> nat" where
  "capacity IndexJs = 12 * 120"
| "capacity Part000 = 12 * 60"

text \<open>
  The block under \<^verbatim>\<open>// Track the positon. Only record the position every 30s.\<close>:
  the test \<^verbatim>\<open>track[track.length - 1].time < Date.now() - 30 * 1000\<close>, the
  \<^verbatim>\<open>push\<close> and the \<^verbatim>\<open>shift\<close> when the length has passed the capacity.
\<close>

definition track_position :: "nat \<Rightarrow> jsval \<Rightarrow> int \<Rightarrow> sample list \<Rightarrow> sample list" where
  "track_position cap p now tr =
     (if length tr = 0 \<or> time (tr ! (length tr - 1)) < now - 30 * 1000 then
        (let tr1 = tr @ [\<lparr>position = p, time = now\<rparr>]
         in if length tr1 > cap then tl tr1 else tr1)
      else tr)"

text \<open>
  \<^verbatim>\<open>src/index.js\<close>: each \<^verbatim>\<open>navigation.position\<close> value is published through
  \<^verbatim>\<open>getMOBDelta\<close> and then offered to the track. When \<^verbatim>\<open>getMOBDelta\<close> raises, the
  value is neither published nor offered, and the loops end there.
\<close>

definition position_vp_index :: "runtime \<Rightarrow> int \<Rightarrow> pathvalue \<Rightarrow> state \<Rightarrow> error option \<times> state" where
  "position_vp_index rt now vp s =
     (if vp_path vp = ''navigation.position'' then
        (case getMOBDelta rt now (vp_value vp) of
           Inl e \<Rightarrow> (Some e, s)
         | Inr mobDelta \<Rightarrow>
             (let s1 = handleMessage mobDelta s
              in (None, s1\<lparr>track := track_position (capacity IndexJs) (vp_value vp) now (track s1)\<rparr>)))
      else (None, s))"

definition position_update_index :: "runtime \<Rightarrow> int \<Rightarrow> update \<Rightarrow> state \<Rightarrow> error option \<times> state" where
  "position_update_index rt now u s =
     (case upd_values u of
        None \<Rightarrow> (None, s)
      | Some vps \<Rightarrow> forEach (position_vp_index rt now) vps s)"

text \<open>
  \<^verbatim>\<open>part_000\<close>: the loops keep the last \<^verbatim>\<open>navigation.position\<close> value in the local
  \<^verbatim>\<open>vesselPosition\<close> (\<^verbatim>\<open>undefined\<close> at first) and offer each to the track; one delta is
  published after the loops, when \<^verbatim>\<open>mobNotification\<close> is set and \<^verbatim>\<open>getMOBDelta\<close> does
  not raise.
\<close>

definition position_vp_part000 :: "int \<Rightarrow> pathvalue \<Rightarrow> jsval \<times> state \<Rightarrow> jsval \<times> state" where
  "position_vp_part000 now vp vs =
     (if vp_path vp = ''navigation.position'' then
        (vp_value vp,
         (snd vs)\<lparr>track := track_position (capacity Part000) (vp_value vp) now (track (snd vs))\<rparr>)
      else vs)"

definition position_update_part000 :: "int \<Rightarrow> update \<Rightarrow> jsval \<times> state \<Rightarrow> jsval \<times> state" where
  "position_update_part000 now u vs =
     (case upd_values u of
        None \<Rightarrow> vs
      | Some vps \<Rightarrow> fold (position_vp_part000 now) vps vs)"

fun position_handler :: "variant \<Rightarrow> runtime \<Rightarrow> int \<Rightarrow> delta \<Rightarrow> state \<Rightarrow> error option \<times> state" where
  "position_handler IndexJs rt now d s =
     (case dl_updates d of
        None \<Rightarrow> (None, s)
      | Some us \<Rightarrow> forEach (position_update_index rt now) us s)"
| "position_handler Part000 rt now d s =
     (let vs = (case dl_updates d of
                  None \<Rightarrow> (JUndefined, s)
                | Some us \<Rightarrow> fold (position_update_part000 now) us (JUndefined, s))
      in if truthy (mobNotification (snd vs)) then
           (case getMOBDelta rt now (fst vs) of
              Inl e \<Rightarrow> (Some e, snd vs)
            | Inr mobDelta \<Rightarrow> (None, handleMessage mobDelta (snd vs)))
         else (None, snd vs))"

section \<open>The plugin's entry points and the host's delivery\<close>

text \<open>\<^verbatim>\<open>plugin.start\<close> subscribes to \<^verbatim>\<open>notifications.mob\<close> with \<^verbatim>\<open>plugin.unsubscribes\<close>.\<close>

definition plugin_start :: "state \<Rightarrow> state" where
  "plugin_start s =
     (let hs = fresh_handles Notifications 1 s
      in s\<lparr>unsubscribes := unsubscribes s @ hs, live := live s @ hs, issued := issued s + 1\<rparr>)"

definition plugin_stop :: "state \<Rightarrow> state" where
  "plugin_stop s = (call_handles (unsubscribes s) s)\<lparr>unsubscribes := []\<rparr>"

text \<open>
  Modelled from the spec: the host's delivery loop. The host delivers a delta of a feed
  to the handler registered for it while a handle of that feed is live, and not after (the
  no-op-after-cancel semantics the spec requires of its unsubscribe functions); the
  position handler itself has no such test. A handler that raises leaves the state it had
  reached. Each event carries the value \<^verbatim>\<open>Date.now()\<close> has while its handler runs, and
  a position delta the runtime its handler reads.
\<close>

definition subscribed :: "topic \<Rightarrow> state \<Rightarrow> bool" where
  "subscribed t s = list_ex (\<lambda>h. handle_topic h = t) (live s)"

datatype event =
    Start
  | Stop
  | Notify int delta
  | Locate runtime int delta

fun step :: "variant \<Rightarrow> event \<Rightarrow> state \<Rightarrow> state" where
  "step var Start s = plugin_start s"
| "step var Stop s = plugin_stop s"
| "step var (Notify now d) s =
     (if subscribed Notifications s then snd (notification_handler var now d s) else s)"
| "step var (Locate rt now d) s =
     (if subscribed Position s then snd (position_handler var rt now d s) else s)"

definition run :: "variant \<Rightarrow> event list \<Rightarrow> state \<Rightarrow> state" where
  "run var evs s = fold (step var) evs s"

section \<open>Vocabulary of the properties\<close>

text \<open>The live handles of each feed, and what holds in every state the plugin reaches.\<close>

definition pos_live :: "state \<Rightarrow> handle list" where
  "pos_live s = filter (\<lambda>h. handle_topic h = Position) (live s)"

definition notif_live :: "state \<Rightarrow> handle list" where
  "notif_live s = filter (\<lambda>h. handle_topic h = Notifications) (live s)"

definition plugin_inv :: "variant \<Rightarrow> state \<Rightarrow> bool" where
  "plugin_inv var s \<longleftrightarrow>
     pos_live s = onStop s \<and> notif_live s = unsubscribes s \<and>
     length (onStop s) \<le> position_rows var \<and> length (track s) \<le> capacity var"

text \<open>All the path-value pairs a handler's loops visit, in order.\<close>

definition delta_vps :: "delta \<Rightarrow> pathvalue list" where
  "delta_vps d =
     (case dl_updates d of
        None \<Rightarrow> []
      | Some us \<Rightarrow> concat (map (\<lambda>u. case upd_values u of None \<Rightarrow> [] | Some vps \<Rightarrow> vps) us))"

text \<open>A position, a notification value and an emergency as the feeds send them.\<close>

definition geo_point :: "real \<Rightarrow> real \<Rightarrow> jsval" where
  "geo_point lat lon = JObj [(''latitude'', JNum lat), (''longitude'', JNum lon)]"

definition mob_value :: "jsval \<Rightarrow> pathvalue" where
  "mob_value v = \<lparr>vp_path = ''notifications.mob'', vp_value = v\<rparr>"

definition emergency_at :: "real \<Rightarrow> real \<Rightarrow> jsval" where
  "emergency_at lat lon =
     JObj [(''state'', JStr ''emergency''),
           (''data'', JObj [(''position'', JObj [(''latitude'', JNum lat), (''longitude'', JNum lon)])])]"

text \<open>
  A notification value the handler can read: an object, carrying a \<^verbatim>\<open>data\<close> member
  that is neither \<^verbatim>\<open>undefined\<close> nor \<^verbatim>\<open>null\<close> when its state is \<^verbatim>\<open>"emergency"\<close>.
\<close>

fun is_object :: "jsval \<Rightarrow> bool" where
  "is_object (JObj kvs) = True"
| "is_object (JArr xs) = True"
| "is_object v = False"

definition has_data :: "jsval \<Rightarrow> bool" where
  "has_data v = (case get_prop v ''data'' of Inl e \<Rightarrow> False | Inr d \<Rightarrow> d \<noteq> JUndefined \<and> d \<noteq> JNull)"

definition well_formed :: "jsval \<Rightarrow> bool" where
  "well_formed v \<longleftrightarrow> is_object v \<and> (state_is v ''emergency'' = Inr True \<longrightarrow> has_data v)"

text \<open>
  Offering a sequence of positions, each with the time \<^verbatim>\<open>Date.now()\<close> returns when it is
  offered, to a track; and a sequence in which every offer comes more than 30 s after the
  one before, so that the throttle lets each of them through.
\<close>

definition mk_sample :: "jsval \<times> int \<Rightarrow> sample" where
  "mk_sample x = \<lparr>position = fst x, time = snd x\<rparr>"

definition offer_all :: "nat \<Rightarrow> (jsval \<times> int) list \<Rightarrow> sample list \<Rightarrow> sample list" where
  "offer_all cap offers tr = fold (\<lambda>x. track_position cap (fst x) (snd x)) offers tr"

fun eligible :: "(jsval \<times> int) list \<Rightarrow> bool" where
  "eligible [] = True"
| "eligible [x] = True"
| "eligible (x # y # zs) = (snd x < snd y - 30 * 1000 \<and> eligible (y # zs))"

text \<open>
  A host document for the examples: the person fell at 10 N 20 E at time 0, the vessel
  heads north, and the GPS antenna is 5 m behind the bow.
\<close>

definition example_doc :: "string \<Rightarrow> jsval" where
  "example_doc p =
     (if p = ''navigation.mob.position.value'' then geo_point 10 20
      else if p = ''navigation.mob.time.value'' then JNum 0
      else if p = ''navigation.headingTrue.value'' then JNum 0
      else if p = ''sensors.gps.fromBow.value'' then JNum 5
      else JUndefined)"

definition locate :: "runtime \<times> int \<times> delta \<Rightarrow> event" where
  "locate x = Locate (fst x) (fst (snd x)) (snd (snd x))"



text \<open>
  A library for the examples: positions on the plane tangent to the sphere, a degree of
  latitude being 111120 m long. It throws on a point whose latitude or longitude is not a
  number, and does not round. It stands for \<^verbatim>\<open>geolib\<close> in the examples only; the
  theorems hold for every library.
\<close>

definition coordinate :: "jsval \<Rightarrow> string \<Rightarrow> real option" where
  "coordinate p k = (case get_prop p k of Inr (JNum r) \<Rightarrow> Some r | _ \<Rightarrow> None)"

definition plane_destination :: "jsval \<Rightarrow> jsval \<Rightarrow> jsval \<Rightarrow> error + jsval" where
  "plane_destination p distance bearing =
     (case coordinate p ''latitude'' of
        None \<Rightarrow> Inl GeolibError
      | Some lat \<Rightarrow>
     (case coordinate p ''longitude'' of
        None \<Rightarrow> Inl GeolibError
      | Some lon \<Rightarrow>
     (case distance of
        JNum d \<Rightarrow>
          (case bearing of
             JNum b \<Rightarrow>
               Inr (geo_point
                 (lat + d * cos (b * pi / 180) / 111120)
                 (lon + d * sin (b * pi / 180) / (111120 * cos (lat * pi / 180))))
           | _ \<Rightarrow> Inl GeolibError)
      | _ \<Rightarrow> Inl GeolibError)))"

definition plane_distance :: "jsval \<Rightarrow> jsval \<Rightarrow> jsval \<Rightarrow> error + jsval" where
  "plane_distance p q accuracy =
     (case coordinate p ''latitude'' of
        None \<Rightarrow> Inl GeolibError
      | Some lat1 \<Rightarrow>
     (case coordinate p ''longitude'' of
        None \<Rightarrow> Inl GeolibError
      | Some lon1 \<Rightarrow>
     (case coordinate q ''latitude'' of
        None \<Rightarrow> Inl GeolibError
      | Some lat2 \<Rightarrow>
     (case coordinate q ''longitude'' of
        None \<Rightarrow> Inl GeolibError
      | Some lon2 \<Rightarrow>
          Inr (JNum (sqrt (((lat2 - lat1) * 111120)\<^sup>2 +
                           ((lon2 - lon1) * 111120 * cos (lat1 * pi / 180))\<^sup>2)))))))"

definition plane_bearing :: "jsval \<Rightarrow> jsval \<Rightarrow> error + jsval" where
  "plane_bearing p q =
     (case coordinate p ''latitude'' of
        None \<Rightarrow> Inl GeolibError
      | Some lat1 \<Rightarrow>
     (case coordinate p ''longitude'' of
        None \<Rightarrow> Inl GeolibError
      | Some lon1 \<Rightarrow>
     (case coordinate q ''latitude'' of
        None \<Rightarrow> Inl GeolibError
      | Some lat2 \<Rightarrow>
     (case coordinate q ''longitude'' of
        None \<Rightarrow> Inl GeolibError
      | Some lon2 \<Rightarrow>
          (let east = (lon2 - lon1) * cos (lat1 * pi / 180); north = lat2 - lat1
           in Inr (JNum
                (if east = 0 then (if 0 \<le> north then 0 else 180)
                 else if 0 < east then 90 - arctan (north / east) * 180 / pi
                 else 270 - arctan (north / east) * 180 / pi)))))))"

definition plane_runtime :: "(string \<Rightarrow> jsval) \<Rightarrow> runtime" where
  "plane_runtime doc =
     \<lparr>getDistance = plane_distance, computeDestinationPoint = plane_destination,
      getRhumbLineBearing = plane_bearing, parseNumber = (\<lambda>v. None), getSelfPath = doc\<rparr>"

section \<open>Invariants of the reachable states\<close>

lemma plugin_inv_init: "plugin_inv var init"
  by (simp add: plugin_inv_def init_def pos_live_def notif_live_def)

lemma filter_fresh_same: "filter (\<lambda>h. handle_topic h = t) (fresh_handles t n s) = fresh_handles t n s"
  by (simp add: fresh_handles_def filter_map o_def)

lemma filter_fresh_other: "t' \<noteq> t \<Longrightarrow> filter (\<lambda>h. handle_topic h = t') (fresh_handles t n s) = []"
  by (simp add: fresh_handles_def filter_map o_def)

lemma length_fresh: "length (fresh_handles t n s) = n"
  by (simp add: fresh_handles_def)

lemma plugin_inv_plugin_start: "plugin_inv var s \<Longrightarrow> plugin_inv var (plugin_start s)"
  by (simp add: plugin_inv_def plugin_start_def Let_def pos_live_def notif_live_def
      filter_fresh_same filter_fresh_other)

lemma filter_out_same: "filter P xs = hs \<Longrightarrow> filter (\<lambda>x. x \<notin> set hs \<and> P x) xs = []"
  by (auto simp: filter_empty_conv)

lemma filter_out_other:
  "filter Q xs = hs \<Longrightarrow> (\<And>x. P x \<Longrightarrow> \<not> Q x) \<Longrightarrow> filter (\<lambda>x. x \<notin> set hs \<and> P x) xs = filter P xs"
  by (rule filter_cong) auto

lemma plugin_inv_plugin_stop:
  assumes "plugin_inv var s"
  shows "plugin_inv var (plugin_stop s)"
proof -
  from assms have n: "filter (\<lambda>h. handle_topic h = Notifications) (live s) = unsubscribes s"
    and p: "filter (\<lambda>h. handle_topic h = Position) (live s) = onStop s"
    by (simp_all add: plugin_inv_def pos_live_def notif_live_def)
  show ?thesis
    using assms filter_out_same [OF n] filter_out_other [OF n, of "\<lambda>h. handle_topic h = Position"]
    by (simp add: plugin_inv_def plugin_stop_def call_handles_def pos_live_def notif_live_def)
qed

lemma plugin_inv_stopWatching:
  assumes "plugin_inv var s"
  shows "plugin_inv var (stopWatchingPosition s)"
proof -
  from assms have n: "filter (\<lambda>h. handle_topic h = Notifications) (live s) = unsubscribes s"
    and p: "filter (\<lambda>h. handle_topic h = Position) (live s) = onStop s"
    by (simp_all add: plugin_inv_def pos_live_def notif_live_def)
  show ?thesis
    using assms filter_out_same [OF p] filter_out_other [OF p, of "\<lambda>h. handle_topic h = Notifications"]
    by (simp add: plugin_inv_def stopWatchingPosition_def call_handles_def handleMessage_def
        pos_live_def notif_live_def)
qed

lemma plugin_inv_mob: "plugin_inv var (s\<lparr>mobNotification := v\<rparr>) = plugin_inv var s"
  by (simp add: plugin_inv_def pos_live_def notif_live_def)

lemma plugin_inv_startWatching: "plugin_inv var s \<Longrightarrow> plugin_inv var (snd (startWatchingPosition var now s))"
  unfolding plugin_inv_def startWatchingPosition_def pos_live_def notif_live_def handleMessage_def
  by (auto simp: Let_def filter_fresh_same filter_fresh_other length_fresh split: sum.splits)


lemma forEach_preserves:
  assumes "\<And>x s. P s \<Longrightarrow> P (snd (f x s))"
  shows "P s \<Longrightarrow> P (snd (forEach f xs s))"
proof (induction xs arbitrary: s)
  case Nil
  then show ?case by simp
next
  case (Cons x xs)
  from assms [OF Cons.prems, of x] Cons.IH show ?case
    by (cases "f x s") (auto split: option.splits)
qed

lemma plugin_inv_notification_vp: "plugin_inv var s \<Longrightarrow> plugin_inv var (snd (notification_vp var now vp s))"
  by (auto simp: notification_vp_def plugin_inv_mob plugin_inv_startWatching plugin_inv_stopWatching
      split: sum.splits)

lemma plugin_inv_notification_update:
  "plugin_inv var s \<Longrightarrow> plugin_inv var (snd (notification_update var now u s))"
  by (auto simp: notification_update_def split: option.splits
      intro: forEach_preserves [where P = "plugin_inv var"] plugin_inv_notification_vp)

lemma plugin_inv_notification_handler:
  "plugin_inv var s \<Longrightarrow> plugin_inv var (snd (notification_handler var now d s))"
  by (auto simp: notification_handler_def split: option.splits
      intro: forEach_preserves [where P = "plugin_inv var"] plugin_inv_notification_update)

lemma length_track_position: "length tr \<le> cap \<Longrightarrow> length (track_position cap p now tr) \<le> cap"
  by (auto simp: track_position_def Let_def)

lemma plugin_inv_track:
  "plugin_inv var s \<Longrightarrow> length tr \<le> capacity var \<Longrightarrow> plugin_inv var (s\<lparr>track := tr\<rparr>)"
  by (simp add: plugin_inv_def pos_live_def notif_live_def)

lemma plugin_inv_handleMessage: "plugin_inv var (handleMessage d s) = plugin_inv var s"
  by (simp add: plugin_inv_def pos_live_def notif_live_def handleMessage_def)

lemma plugin_inv_track_bound: "plugin_inv var s \<Longrightarrow> length (track s) \<le> capacity var"
  by (simp add: plugin_inv_def)


lemma fold_preserves:
  assumes "\<And>x vs. P (snd vs) \<Longrightarrow> P (snd (f x vs))"
  shows "P (snd vs) \<Longrightarrow> P (snd (fold f xs vs))"
proof (induction xs arbitrary: vs)
  case Nil
  then show ?case by simp
next
  case (Cons x xs)
  from Cons.prems have "P (snd (f x vs))" by (rule assms)
  then show ?case using Cons.IH by simp
qed

lemma plugin_inv_offer:
  "plugin_inv var s \<Longrightarrow>
   plugin_inv var (s\<lparr>track := track_position (capacity var) p now (track s)\<rparr>)"
  by (simp add: plugin_inv_def pos_live_def notif_live_def length_track_position)

lemma plugin_inv_position_vp_index:
  "plugin_inv IndexJs s \<Longrightarrow> plugin_inv IndexJs (snd (position_vp_index rt now vp s))"
  unfolding position_vp_index_def Let_def
  using plugin_inv_offer [of IndexJs "handleMessage d s" for d]
  by (auto split: sum.splits simp: plugin_inv_handleMessage)

lemma plugin_inv_position_update_index:
  "plugin_inv IndexJs s \<Longrightarrow> plugin_inv IndexJs (snd (position_update_index rt now u s))"
  by (auto simp: position_update_index_def split: option.splits
      intro: forEach_preserves [where P = "plugin_inv IndexJs"] plugin_inv_position_vp_index)

lemma plugin_inv_position_vp_part000:
  "plugin_inv Part000 (snd vs) \<Longrightarrow> plugin_inv Part000 (snd (position_vp_part000 now vp vs))"
  unfolding position_vp_part000_def
  using plugin_inv_offer [of Part000 "snd vs"]
  by auto

lemma plugin_inv_position_update_part000:
  "plugin_inv Part000 (snd vs) \<Longrightarrow> plugin_inv Part000 (snd (position_update_part000 now u vs))"
  by (auto simp: position_update_part000_def split: option.splits
      intro: fold_preserves [where P = "plugin_inv Part000"] plugin_inv_position_vp_part000)

lemma plugin_inv_position_handler:
  "plugin_inv var s \<Longrightarrow> plugin_inv var (snd (position_handler var rt now d s))"
proof (cases var)
  case IndexJs
  assume "plugin_inv var s"
  with IndexJs show ?thesis
    by (auto split: option.splits
        intro: forEach_preserves [where P = "plugin_inv IndexJs"] plugin_inv_position_update_index)
next
  case Part000
  assume a: "plugin_inv var s"
  have "plugin_inv Part000 (snd (fold (position_update_part000 now) us (JUndefined, s)))" for us
    using a Part000
    by (auto intro: fold_preserves [where P = "plugin_inv Part000"] plugin_inv_position_update_part000)
  with a Part000 show ?thesis
    by (auto simp: Let_def plugin_inv_handleMessage split: option.splits sum.splits)
qed

lemma plugin_inv_step: "plugin_inv var s \<Longrightarrow> plugin_inv var (step var e s)"
  by (cases e)
    (simp_all add: plugin_inv_plugin_start plugin_inv_plugin_stop
      plugin_inv_notification_handler plugin_inv_position_handler)

lemma plugin_inv_run: "plugin_inv var s \<Longrightarrow> plugin_inv var (run var evs s)"
  unfolding run_def by (induction evs arbitrary: s) (simp_all add: plugin_inv_step)

lemma plugin_inv_reachable: "plugin_inv var (run var evs init)"
  by (rule plugin_inv_run [OF plugin_inv_init])

section \<open>The state machine\<close>

lemma forEach_noop:
  "(\<And>x. x \<in> set xs \<Longrightarrow> f x s = (None, s)) \<Longrightarrow> forEach f xs s = (None, s)"
  by (induction xs) simp_all

lemma emergency_vp_noop:
  assumes "truthy (mobNotification s)"
    and "vp_path vp = ''notifications.mob'' \<longrightarrow> state_is (vp_value vp) ''emergency'' = Inr True"
  shows "notification_vp var now vp s = (None, s)"
proof (cases "vp_path vp = ''notifications.mob''")
  case False
  then show ?thesis by (simp add: notification_vp_def)
next
  case True
  with assms(2) have e: "state_is (vp_value vp) ''emergency'' = Inr True" by simp
  then have "state_is (vp_value vp) ''normal'' = Inr False"
    by (auto simp: state_is_def split: sum.splits if_splits)
  with assms(1) True show ?thesis
    by (cases var) (simp_all add: notification_vp_def emergency_test_def)
qed

lemma emergency_delta_noop:
  assumes "truthy (mobNotification s)"
    and "\<And>vp. vp \<in> set (delta_vps d) \<Longrightarrow> vp_path vp = ''notifications.mob'' \<Longrightarrow>
           state_is (vp_value vp) ''emergency'' = Inr True"
  shows "notification_handler var now d s = (None, s)"
proof (cases "dl_updates d")
  case None
  then show ?thesis by (simp add: notification_handler_def)
next
  case (Some us)
  have "notification_update var now u s = (None, s)" if "u \<in> set us" for u
  proof (cases "upd_values u")
    case None
    then show ?thesis by (simp add: notification_update_def)
  next
    case (Some vps)
    have "notification_vp var now vp s = (None, s)" if "vp \<in> set vps" for vp
    proof (rule emergency_vp_noop [OF assms(1)], rule impI)
      assume "vp_path vp = ''notifications.mob''"
      moreover have "vp \<in> set (delta_vps d)"
        using that Some \<open>u \<in> set us\<close> \<open>dl_updates d = Some us\<close>
        by (force simp: delta_vps_def)
      ultimately show "state_is (vp_value vp) ''emergency'' = Inr True" by (rule assms(2) [rotated])
    qed
    with Some show ?thesis by (simp add: notification_update_def forEach_noop)
  qed
  with Some show ?thesis by (simp add: notification_handler_def forEach_noop)
qed

lemmas eval_defs =
  run_def plugin_start_def plugin_stop_def fresh_handles_def subscribed_def init_def
  notification_handler_def notification_update_def notification_vp_def emergency_test_def
  state_is_def startWatchingPosition_def stopWatchingPosition_def handleMessage_def
  call_handles_def mk_delta_def mob_value_def emergency_at_def delta_vps_def Let_def

lemma tracking_state:
  "run var [Start, Notify t (mk_delta [mob_value (emergency_at 10 20)])] init =
   \<lparr>onStop = map (Handle Position) [1 ..< 1 + position_rows var], track = [],
    mobNotification = emergency_at 10 20, unsubscribes = [Handle Notifications 0],
    messages = [mk_delta
        [\<lparr>vp_path = ''navigation.mob.position'',
          vp_value = JObj [(''latitude'', JNum 10), (''longitude'', JNum 20)]\<rparr>,
         \<lparr>vp_path = ''navigation.mob.time'', vp_value = JNum (of_int t)\<rparr>]],
    live = Handle Notifications 0 # map (Handle Position) [1 ..< 1 + position_rows var],
    issued = 1 + position_rows var\<rparr>"
  by (cases var) (simp_all add: eval_defs)

text \<open>
  Claim C1. The plugin records one event at most (the single variable \<open>mobNotification\<close>),
  and a notification whose state is \<^verbatim>\<open>"emergency"\<close>, arriving while \<open>mobNotification\<close> is
  set, changes nothing: the handler returns the state it was given, so \<open>mobNotification\<close>,
  \<open>onStop\<close>, the track, the published messages and the host's subscriptions are as
  before, and no second position watch is opened. In every reachable state the live
  position handles are those of \<open>onStop\<close>, which holds the handles of one
  \<^verbatim>\<open>subscribe\<close> call at most.
\<close>

theorem duplicate_emergency_ignored:
  assumes "truthy (mobNotification s)"
    and "\<forall>vp \<in> set (delta_vps d). vp_path vp = ''notifications.mob'' \<longrightarrow>
           state_is (vp_value vp) ''emergency'' = Inr True"
  shows "notification_handler var now d s = (None, s) \<and>
         pos_live (run var evs init) = onStop (run var evs init) \<and>
         length (onStop (run var evs init)) \<le> position_rows var"
  using emergency_delta_noop [OF assms(1), of d var now] assms(2) plugin_inv_reachable [of var evs]
  by (simp add: plugin_inv_def)

theorem duplicate_emergency_ignored_witness:
  "truthy (mobNotification (run Part000 [Start, Notify 0 (mk_delta [mob_value (emergency_at 10 20)])] init)) \<and>
   notification_handler Part000 1000 (mk_delta [mob_value (emergency_at 10 20)])
       (run Part000 [Start, Notify 0 (mk_delta [mob_value (emergency_at 10 20)])] init) =
     (None, run Part000 [Start, Notify 0 (mk_delta [mob_value (emergency_at 10 20)])] init) \<and>
   length (onStop (run Part000 [Start, Notify 0 (mk_delta [mob_value (emergency_at 10 20)])] init)) = 2"
proof -
  let ?d = "mk_delta [mob_value (emergency_at 10 20)]"
  let ?s = "run Part000 [Start, Notify 0 ?d] init"
  have t: "truthy (mobNotification ?s)"
    unfolding tracking_state by (simp add: emergency_at_def)
  have e: "\<forall>vp \<in> set (delta_vps ?d). vp_path vp = ''notifications.mob'' \<longrightarrow>
             state_is (vp_value vp) ''emergency'' = Inr True"
    by (simp add: delta_vps_def mk_delta_def mob_value_def emergency_at_def state_is_def)
  have l: "length (onStop ?s) = 2"
    by (simp add: tracking_state)
  from duplicate_emergency_ignored [OF t e, of Part000 1000 "[Start, Notify 0 ?d]"] t l
  show ?thesis by simp
qed

lemma ignored_value_index:
  assumes "\<not> (\<not> truthy (mobNotification s) \<and> state_is v ''emergency'' = Inr True)"
    and "\<not> (truthy (mobNotification s) \<and> state_is v ''normal'' = Inr True)"
  shows "snd (notification_vp IndexJs now \<lparr>vp_path = p, vp_value = v\<rparr> s) = s"
  using assms by (auto simp: notification_vp_def emergency_test_def split: sum.splits)

lemma ignored_value_part000:
  assumes "\<not> (\<not> truthy (mobNotification s) \<and> state_is v ''emergency'' = Inr True)"
    and "state_is v ''normal'' \<noteq> Inr True"
  shows "snd (notification_vp Part000 now \<lparr>vp_path = p, vp_value = v\<rparr> s) = s"
  using assms by (auto simp: notification_vp_def emergency_test_def split: sum.splits)

text \<open>
  Claim C2. A value that neither activates nor deactivates is to be ignored, a
  \<^verbatim>\<open>"normal"\<close> arriving while no event is recorded included. \<^verbatim>\<open>src/index.js\<close> does so
  (\<open>ignored_value_index\<close>); \<^verbatim>\<open>part_000\<close> tests \<^verbatim>\<open>"normal"\<close> without looking at
  \<open>mobNotification\<close>, calls \<^verbatim>\<open>stopWatchingPosition\<close> and publishes the cleared delta.
\<close>

theorem normal_while_idle_publishes_part000:
  "\<not> truthy (mobNotification (plugin_start init)) \<and>
   notification_handler Part000 now
       (mk_delta [mob_value (JObj [(''state'', JStr ''normal'')])]) (plugin_start init) =
     (None, (plugin_start init)\<lparr>messages := [cleared]\<rparr>) \<and>
   notification_handler IndexJs now
       (mk_delta [mob_value (JObj [(''state'', JStr ''normal'')])]) (plugin_start init) =
     (None, plugin_start init)"
  by (simp add: eval_defs)

section \<open>Exceptions of the notification handler\<close>

lemma state_is_object: "is_object v \<Longrightarrow> \<exists>b. state_is v lit = Inr b"
  by (cases v) (auto simp: state_is_def)

lemma get_prop_raises: "get_prop d k = Inl e \<Longrightarrow> d = JUndefined \<or> d = JNull"
  by (cases d) simp_all

lemma startWatching_returns:
  "has_data (mobNotification s) \<Longrightarrow> fst (startWatchingPosition var now s) = None"
  by (auto simp: startWatchingPosition_def has_data_def Let_def split: sum.splits
      dest: get_prop_raises)

lemma notification_vp_returns:
  assumes "vp_path vp = ''notifications.mob'' \<longrightarrow> well_formed (vp_value vp)"
  shows "fst (notification_vp var now vp s) = None"
proof (cases "vp_path vp = ''notifications.mob''")
  case False
  then show ?thesis by (simp add: notification_vp_def)
next
  case True
  with assms have o: "is_object (vp_value vp)"
    and d: "state_is (vp_value vp) ''emergency'' = Inr True \<Longrightarrow> has_data (vp_value vp)"
    by (simp_all add: well_formed_def)
  from state_is_object [OF o] obtain b c where
    b: "state_is (vp_value vp) ''emergency'' = Inr b" and c: "state_is (vp_value vp) ''normal'' = Inr c"
    by blast
  show ?thesis
  proof (cases "\<not> truthy (mobNotification s) \<and> b")
    case True
    with b d have "has_data (vp_value vp)" by simp
    then have "fst (startWatchingPosition var now (s\<lparr>mobNotification := vp_value vp\<rparr>)) = None"
      by (simp add: startWatching_returns)
    with True b \<open>vp_path vp = ''notifications.mob''\<close> show ?thesis
      by (simp add: notification_vp_def emergency_test_def)
  next
    case False
    with b c \<open>vp_path vp = ''notifications.mob''\<close> show ?thesis
      by (cases var) (auto simp: notification_vp_def emergency_test_def)
  qed
qed

lemma forEach_returns:
  "(\<And>x s. x \<in> set xs \<Longrightarrow> fst (f x s) = None) \<Longrightarrow> fst (forEach f xs s) = None"
proof (induction xs arbitrary: s)
  case Nil
  then show ?case by simp
next
  case (Cons x xs)
  have "fst (f x s) = None" by (rule Cons.prems) simp
  then obtain s' where "f x s = (None, s')" by (cases "f x s") auto
  moreover have "fst (forEach f xs s') = None" by (rule Cons.IH) (simp add: Cons.prems)
  ultimately show ?case by simp
qed

lemma notification_handler_returns:
  assumes "\<And>vp. vp \<in> set (delta_vps d) \<Longrightarrow> vp_path vp = ''notifications.mob'' \<Longrightarrow>
             well_formed (vp_value vp)"
  shows "fst (notification_handler var now d s) = None"
proof (cases "dl_updates d")
  case None
  then show ?thesis by (simp add: notification_handler_def)
next
  case (Some us)
  have "fst (notification_update var now u s') = None" if "u \<in> set us" for u s'
  proof (cases "upd_values u")
    case None
    then show ?thesis by (simp add: notification_update_def)
  next
    case (Some vps)
    have "fst (notification_vp var now vp s'') = None" if "vp \<in> set vps" for vp s''
    proof (rule notification_vp_returns, rule impI)
      assume "vp_path vp = ''notifications.mob''"
      moreover have "vp \<in> set (delta_vps d)"
        using that Some \<open>u \<in> set us\<close> \<open>dl_updates d = Some us\<close>
        by (force simp: delta_vps_def)
      ultimately show "well_formed (vp_value vp)" by (rule assms [rotated])
    qed
    with Some show ?thesis by (simp add: notification_update_def forEach_returns)
  qed
  with Some show ?thesis by (simp add: notification_handler_def forEach_returns)
qed

lemma stateless_object_ignored:
  "js_in ''state'' v = Inr False \<Longrightarrow> notification_vp var now \<lparr>vp_path = p, vp_value = v\<rparr> s = (None, s)"
  by (cases var) (simp_all add: notification_vp_def emergency_test_def state_is_def)

text \<open>
  Claim C3, as amended. The handler has no \<^verbatim>\<open>try\<close>: it returns normally on every delta
  whose \<^verbatim>\<open>notifications.mob\<close> values are objects, an emergency value among them
  carrying a \<^verbatim>\<open>data\<close> member that is neither \<^verbatim>\<open>undefined\<close> nor \<^verbatim>\<open>null\<close>; and an
  object without a \<^verbatim>\<open>state\<close> member is ignored, the state left as it was.
\<close>

theorem handler_returns_on_objects:
  assumes "\<forall>vp \<in> set (delta_vps d). vp_path vp = ''notifications.mob'' \<longrightarrow> well_formed (vp_value vp)"
  shows "fst (notification_handler var now d s) = None \<and>
         (js_in ''state'' v = Inr False \<longrightarrow>
            notification_vp var now \<lparr>vp_path = p, vp_value = v\<rparr> s = (None, s))"
  using notification_handler_returns [of d var now s] assms stateless_object_ignored [of v var now p s]
  by blast

theorem handler_returns_on_objects_witness:
  "well_formed (JObj [(''message'', JStr ''MOB'')]) \<and>
   well_formed (emergency_at 10 20) \<and>
   fst (notification_handler IndexJs 0
          (mk_delta [mob_value (JObj [(''message'', JStr ''MOB'')]), mob_value (emergency_at 10 20)])
          (plugin_start init)) = None \<and>
   js_in ''state'' (JObj [(''message'', JStr ''MOB'')]) = Inr False \<and>
   notification_vp IndexJs 0 \<lparr>vp_path = ''notifications.mob'', vp_value = JObj [(''message'', JStr ''MOB'')]\<rparr>
     (plugin_start init) = (None, plugin_start init)"
proof -
  let ?v = "JObj [(''message'', JStr ''MOB'')]"
  let ?d = "mk_delta [mob_value ?v, mob_value (emergency_at 10 20)]"
  have w1: "well_formed ?v"
    by (simp add: well_formed_def state_is_def)
  have w2: "well_formed (emergency_at 10 20)"
    by (simp add: well_formed_def has_data_def emergency_at_def)
  have a: "\<forall>vp \<in> set (delta_vps ?d). vp_path vp = ''notifications.mob'' \<longrightarrow> well_formed (vp_value vp)"
    using w1 w2 by (simp add: delta_vps_def mk_delta_def mob_value_def)
  have i: "js_in ''state'' ?v = Inr False" by simp
  from handler_returns_on_objects [OF a, of IndexJs 0 "plugin_start init" ?v "''notifications.mob''"] w1 w2 i
  show ?thesis by simp
qed

text \<open>
  The claim as it was written fails: on a \<^verbatim>\<open>null\<close> value \<^verbatim>\<open>"state" in vp.value\<close> raises
  a \<^verbatim>\<open>TypeError\<close> in both variants, and an emergency value without \<^verbatim>\<open>data\<close> raises
  in \<^verbatim>\<open>startWatchingPosition\<close>, after \<open>mobNotification\<close> has been assigned.
\<close>

theorem null_value_raises:
  "fst (notification_handler IndexJs 0 (mk_delta [mob_value JNull]) (plugin_start init)) = Some TypeError \<and>
   fst (notification_handler Part000 0 (mk_delta [mob_value JNull]) (plugin_start init)) = Some TypeError \<and>
   notification_handler Part000 0 (mk_delta [mob_value (JObj [(''state'', JStr ''emergency'')])]) (plugin_start init) =
     (Some TypeError, (plugin_start init)\<lparr>mobNotification := JObj [(''state'', JStr ''emergency'')]\<rparr>)"
  by (simp add: eval_defs)

section \<open>The track\<close>

lemma track_position_eq:
  "track_position cap p now tr =
     (if tr = [] \<or> 30 * 1000 < now - time (last tr) then
        (if cap < length tr + 1 then tl (tr @ [\<lparr>position = p, time = now\<rparr>])
         else tr @ [\<lparr>position = p, time = now\<rparr>])
      else tr)"
  by (cases "tr = []") (auto simp: track_position_def Let_def last_conv_nth)

lemma offer_all_snoc:
  "offer_all cap (xs @ [x]) tr = track_position cap (fst x) (snd x) (offer_all cap xs tr)"
  by (simp add: offer_all_def)

lemma eligible_snoc:
  "eligible (xs @ [x]) \<longleftrightarrow> eligible xs \<and> (xs = [] \<or> snd (last xs) < snd x - 30 * 1000)"
  by (induction xs rule: eligible.induct) auto

lemma tl_drop_snoc:
  "cap \<le> length ys \<Longrightarrow> tl (drop (length ys - cap) ys @ [y]) = drop (Suc (length ys) - cap) (ys @ [y])"
proof (cases "cap = 0")
  case True
  then show ?thesis by simp
next
  case False
  assume "cap \<le> length ys"
  with False have "drop (length ys - cap) ys \<noteq> []" by simp
  then have "tl (drop (length ys - cap) ys @ [y]) = tl (drop (length ys - cap) ys) @ [y]" by simp
  also have "\<dots> = drop (Suc (length ys - cap)) ys @ [y]" by (simp add: drop_Suc tl_drop)
  also have "\<dots> = drop (Suc (length ys) - cap) (ys @ [y])"
    using \<open>cap \<le> length ys\<close> False by (simp add: Suc_diff_le)
  finally show ?thesis .
qed

lemma offer_all_eligible:
  "eligible xs \<Longrightarrow> offer_all cap xs [] = drop (length xs - cap) (map mk_sample xs)"
proof (induction xs rule: rev_induct)
  case Nil
  then show ?case by (simp add: offer_all_def)
next
  case (snoc x xs)
  let ?ys = "map mk_sample xs"
  let ?tr = "drop (length xs - cap) ?ys"
  from snoc.prems have e: "eligible xs" and l: "xs = [] \<or> snd (last xs) < snd x - 30 * 1000"
    by (simp_all add: eligible_snoc)
  from snoc.IH [OF e] have tr: "offer_all cap xs [] = ?tr" .
  have pass: "?tr = [] \<or> 30 * 1000 < snd x - time (last ?tr)"
  proof (cases "?tr = []")
    case True
    then show ?thesis by simp
  next
    case False
    then have "xs \<noteq> []" by auto
    with False have "last ?tr = mk_sample (last xs)" by (simp add: last_map)
    with l \<open>xs \<noteq> []\<close> show ?thesis by (simp add: mk_sample_def)
  qed
  have x: "\<lparr>position = fst x, time = snd x\<rparr> = mk_sample x" by (simp add: mk_sample_def)
  show ?case
  proof (cases "cap \<le> length xs")
    case True
    then have "cap < length ?tr + 1" by simp
    with pass have "track_position cap (fst x) (snd x) ?tr = tl (?tr @ [mk_sample x])"
      by (simp add: track_position_eq x)
    also have "\<dots> = drop (Suc (length ?ys) - cap) (?ys @ [mk_sample x])"
      using tl_drop_snoc [of cap ?ys "mk_sample x"] True by simp
    finally show ?thesis by (simp add: offer_all_snoc tr)
  next
    case False
    then have "\<not> cap < length ?tr + 1" and "?tr = ?ys" by simp_all
    with pass have "track_position cap (fst x) (snd x) ?tr = ?ys @ [mk_sample x]"
      by (simp add: track_position_eq x)
    with False show ?thesis by (simp add: offer_all_snoc tr)
  qed
qed


lemma eligible_spaced: "eligible (map (\<lambda>i. (p, 40000 * int i)) [0..<n])"
proof (induction n)
  case 0
  then show ?case by simp
next
  case (Suc n)
  let ?f = "\<lambda>i. (p, 40000 * int i)"
  have gap: "map ?f [0..<n] = [] \<or> snd (last (map ?f [0..<n])) < snd (?f n) - 30 * 1000"
  proof (cases n)
    case 0
    then show ?thesis by simp
  next
    case (Suc m)
    then have "last (map ?f [0..<n]) = ?f m" by simp
    with Suc show ?thesis by simp
  qed
  have "eligible (map ?f [0..<n] @ [?f n])"
    unfolding eligible_snoc using Suc.IH gap by blast
  then show ?case by simp
qed

text \<open>
  Claim C4, as amended. An offered sample is appended exactly when the track is empty or
  the last stored sample is more than 30 s old (the test is \<^verbatim>\<open><\<close>, so a sample coming
  exactly 30 s after the last one is dropped); when it is appended and the length has
  passed the capacity, the oldest sample leaves; otherwise the track is unchanged. Samples
  offered at 0 s, 5 s, 31 s and 35 s leave those of 0 s and 31 s, in that order.
\<close>

theorem track_throttle:
  "track_position (capacity var) p now tr =
     (if tr = [] \<or> 30 * 1000 < now - time (last tr) then
        (if capacity var < length tr + 1 then tl (tr @ [\<lparr>position = p, time = now\<rparr>])
         else tr @ [\<lparr>position = p, time = now\<rparr>])
      else tr) \<and>
   offer_all (capacity var) [(p0, 0), (p1, 5000), (p2, 31000), (p3, 35000)] [] =
     [\<lparr>position = p0, time = 0\<rparr>, \<lparr>position = p2, time = 31000\<rparr>]"
  by (rule conjI, rule track_position_eq)
    (cases var; simp add: offer_all_def track_position_def)

text \<open>
  The claim as it was written appends at 30 s and more: a sample offered exactly 30 s
  after the first one is dropped by both variants.
\<close>

theorem exactly_30s_dropped:
  "30 * 1000 \<le> (30000 :: int) - time (mk_sample (geo_point 10 20, 0)) \<and>
   offer_all (capacity IndexJs) [(geo_point 10 20, 0), (geo_point 10 21, 30000)] [] =
     [mk_sample (geo_point 10 20, 0)] \<and>
   offer_all (capacity Part000) [(geo_point 10 20, 0), (geo_point 10 21, 30000)] [] =
     [mk_sample (geo_point 10 20, 0)]"
  by (simp add: offer_all_def track_position_def mk_sample_def)

text \<open>
  Claim C5. The track never holds more than the capacity (1440 samples in
  \<^verbatim>\<open>src/index.js\<close>, 720 in \<^verbatim>\<open>part_000\<close>), in any state the plugin reaches; and a
  sequence of eligible samples offered to an empty track leaves its last \<open>capacity\<close>
  samples in the order they came, so that after \<open>capacity + 1\<close> of them the first one,
  and only it, has left.
\<close>

theorem track_bounded_fifo:
  "length (track (run var evs init)) \<le> capacity var \<and>
   (eligible xs \<longrightarrow>
      length (offer_all (capacity var) xs []) \<le> capacity var \<and>
      offer_all (capacity var) xs [] = drop (length xs - capacity var) (map mk_sample xs)) \<and>
   (eligible xs \<and> length xs = capacity var + 1 \<longrightarrow>
      offer_all (capacity var) xs [] = tl (map mk_sample xs))"
proof (intro conjI impI)
  show "length (track (run var evs init)) \<le> capacity var"
    by (rule plugin_inv_track_bound [OF plugin_inv_reachable])
next
  assume "eligible xs"
  then show "length (offer_all (capacity var) xs []) \<le> capacity var"
    by (simp add: offer_all_eligible)
next
  assume "eligible xs"
  then show "offer_all (capacity var) xs [] = drop (length xs - capacity var) (map mk_sample xs)"
    by (rule offer_all_eligible)
next
  assume "eligible xs \<and> length xs = capacity var + 1"
  then show "offer_all (capacity var) xs [] = tl (map mk_sample xs)"
    by (simp add: offer_all_eligible drop_Suc)
qed

theorem track_bounded_fifo_witness:
  "eligible (map (\<lambda>i. (JNull, 40000 * int i)) [0..<721]) \<and>
   length (map (\<lambda>i. (JNull, 40000 * int i)) [0..<721]) = capacity Part000 + 1 \<and>
   length (offer_all (capacity Part000) (map (\<lambda>i. (JNull, 40000 * int i)) [0..<721]) []) \<le> capacity Part000 \<and>
   offer_all (capacity Part000) (map (\<lambda>i. (JNull, 40000 * int i)) [0..<721]) [] =
     tl (map mk_sample (map (\<lambda>i. (JNull, 40000 * int i)) [0..<721]))"
proof -
  let ?xs = "map (\<lambda>i. (JNull, 40000 * int i)) [0..<721]"
  have e: "eligible ?xs" by (rule eligible_spaced)
  have l: "length ?xs = capacity Part000 + 1" by simp
  from track_bounded_fifo [of Part000 "[]" ?xs] e l show ?thesis by blast
qed

section \<open>The navigation delta\<close>

text \<open>
  Claim C6. When the vessel position given to \<^verbatim>\<open>getMOBDelta\<close>, or the person's position
  read from the host, is \<^verbatim>\<open>null\<close> or \<^verbatim>\<open>undefined\<close>, the delta returned is the cleared
  one: the five paths \<^verbatim>\<open>navigation.mob.position\<close>, \<^verbatim>\<open>time\<close>, \<^verbatim>\<open>elapsed\<close>,
  \<^verbatim>\<open>distance\<close> and \<^verbatim>\<open>bearingTrue\<close>, each with the value \<^verbatim>\<open>null\<close>, whatever the time,
  the heading and the library return.
\<close>

theorem missing_position_clears:
  assumes "pos = JNull \<or> pos = JUndefined \<or>
           getSelfPath rt ''navigation.mob.position.value'' = JNull \<or>
           getSelfPath rt ''navigation.mob.position.value'' = JUndefined"
  shows "getMOBDelta rt now pos = Inr cleared \<and>
         map vp_path (delta_vps cleared) =
           [''navigation.mob.position'', ''navigation.mob.time'', ''navigation.mob.elapsed'',
            ''navigation.mob.distance'', ''navigation.mob.bearingTrue''] \<and>
         map vp_value (delta_vps cleared) = [JNull, JNull, JNull, JNull, JNull]"
proof -
  from assms have "\<not> (truthy pos \<and> truthy (getSelfPath rt ''navigation.mob.position.value''))"
    by auto
  then have "getMOBDelta rt now pos = Inr cleared"
    unfolding getMOBDelta_def Let_def by (simp only: if_False)
  then show ?thesis
    by (simp add: cleared_def mk_delta_def delta_vps_def)
qed

theorem missing_position_clears_witness:
  "\<forall>rt. getMOBDelta (rt\<lparr>getSelfPath := example_doc\<rparr>) 10000 JNull = Inr cleared \<and>
        getMOBDelta (rt\<lparr>getSelfPath := \<lambda>p. JUndefined\<rparr>) 10000 (geo_point 10 20) = Inr cleared"
proof (intro allI conjI)
  fix rt :: runtime
  show "getMOBDelta (rt\<lparr>getSelfPath := example_doc\<rparr>) 10000 JNull = Inr cleared"
    using missing_position_clears [of JNull "rt\<lparr>getSelfPath := example_doc\<rparr>" 10000] by simp
  show "getMOBDelta (rt\<lparr>getSelfPath := \<lambda>p. JUndefined\<rparr>) 10000 (geo_point 10 20) = Inr cleared"
    using missing_position_clears [of "geo_point 10 20" "rt\<lparr>getSelfPath := \<lambda>p. JUndefined\<rparr>" 10000]
    by simp
qed

section \<open>Stopping\<close>

lemma subscribed_pos_live: "subscribed Position s \<longleftrightarrow> pos_live s \<noteq> []"
  by (auto simp: subscribed_def pos_live_def list_ex_iff filter_empty_conv)

lemma run_locate_unsubscribed:
  "\<not> subscribed Position s \<Longrightarrow> run var (map locate ps) s = s"
  unfolding run_def by (induction ps) (simp_all add: locate_def)

lemma stopWatching_pos_live:
  "pos_live s = onStop s \<Longrightarrow> pos_live (stopWatchingPosition s) = []"
  using filter_out_same [of "\<lambda>h. handle_topic h = Position" "live s" "onStop s"]
  by (simp add: pos_live_def stopWatchingPosition_def call_handles_def handleMessage_def)

text \<open>
  Claim C7. When \<^verbatim>\<open>stopWatchingPosition\<close> returns, in any state the plugin reaches,
  every handle of \<open>onStop\<close> has been called and \<open>onStop\<close> and the track are empty; the one
  message it publishes is the cleared delta. No position handle is live any more, so the
  host, which delivers nothing to a cancelled subscription, runs the position handler for
  none of the position deltas that follow: the state, its published messages and its empty
  track included, is what \<^verbatim>\<open>stopWatchingPosition\<close> left.
\<close>

theorem stop_cancels_position_watch:
  "onStop (stopWatchingPosition (run var evs init)) = [] \<and>
   track (stopWatchingPosition (run var evs init)) = [] \<and>
   messages (stopWatchingPosition (run var evs init)) = messages (run var evs init) @ [cleared] \<and>
   filter (\<lambda>h. h \<in> set (onStop (run var evs init))) (live (stopWatchingPosition (run var evs init))) = [] \<and>
   subscribed Position (stopWatchingPosition (run var evs init)) = False \<and>
   run var (map locate ps) (stopWatchingPosition (run var evs init)) =
     stopWatchingPosition (run var evs init)"
proof -
  let ?s = "run var evs init"
  have p: "pos_live ?s = onStop ?s"
    using plugin_inv_reachable [of var evs] by (simp add: plugin_inv_def)
  have u: "\<not> subscribed Position (stopWatchingPosition ?s)"
    by (simp add: subscribed_pos_live stopWatching_pos_live [OF p])
  have c: "filter (\<lambda>h. h \<in> set (onStop ?s)) (live (stopWatchingPosition ?s)) = []"
    by (auto simp: stopWatchingPosition_def call_handles_def handleMessage_def filter_empty_conv)
  show ?thesis
    using u c run_locate_unsubscribed [OF u, of var ps]
    by (simp add: stopWatchingPosition_def call_handles_def handleMessage_def)
qed

lemma stray_positions_after_normal:
  "run Part000
     ([Start, Notify 0 (mk_delta [mob_value (emergency_at 10 20)]),
       Notify 5000 (mk_delta [mob_value (JObj [(''state'', JStr ''normal'')])])] @ map locate ps) init =
   \<lparr>onStop = [], track = [], mobNotification = JNull, unsubscribes = [Handle Notifications 0],
    messages = [mk_delta
        [\<lparr>vp_path = ''navigation.mob.position'', vp_value = geo_point 10 20\<rparr>,
         \<lparr>vp_path = ''navigation.mob.time'', vp_value = JNum 0\<rparr>], cleared],
    live = [Handle Notifications 0], issued = 3\<rparr>"
proof -
  let ?s = "\<lparr>onStop = [], track = [], mobNotification = JNull, unsubscribes = [Handle Notifications 0],
    messages = [mk_delta
        [\<lparr>vp_path = ''navigation.mob.position'', vp_value = geo_point 10 20\<rparr>,
         \<lparr>vp_path = ''navigation.mob.time'', vp_value = JNum 0\<rparr>], cleared],
    live = [Handle Notifications 0], issued = 3\<rparr>"
  have "run Part000 [Start, Notify 0 (mk_delta [mob_value (emergency_at 10 20)]),
       Notify 5000 (mk_delta [mob_value (JObj [(''state'', JStr ''normal'')])])] init = ?s"
    by (simp add: eval_defs geo_point_def)
  moreover have "run Part000 (map locate ps) ?s = ?s"
    by (rule run_locate_unsubscribed) (simp add: subscribed_def)
  ultimately show ?thesis by (simp add: run_def)
qed

text \<open>
  That guarantee is the host's. The position handler tests nothing: were it called after
  the stop, it would record the position all the same.
\<close>

lemma position_handler_unguarded:
  "track (snd (position_handler Part000 rt 9000
      (mk_delta [\<lparr>vp_path = ''navigation.position'', vp_value = geo_point 10 21\<rparr>])
      (stopWatchingPosition s))) = [\<lparr>position = geo_point 10 21, time = 9000\<rparr>]"
  by (simp add: mk_delta_def position_update_part000_def position_vp_part000_def
      track_position_def stopWatchingPosition_def handleMessage_def call_handles_def
      Let_def split: sum.splits)

text \<open>
  Claim C10. \<^verbatim>\<open>plugin.stop\<close> calls the handles of \<^verbatim>\<open>plugin.unsubscribes\<close> and empties
  that array, and nothing else: in any state the plugin reaches the notification feed is
  cancelled, while \<open>onStop\<close>, the track, \<open>mobNotification\<close> and the published messages are
  as before and the live position handles are the same, so a position watch opened during
  an emergency stays subscribed.
\<close>

theorem plugin_stop_leaves_position_watch:
  "unsubscribes (plugin_stop (run var evs init)) = [] \<and>
   notif_live (plugin_stop (run var evs init)) = [] \<and>
   onStop (plugin_stop (run var evs init)) = onStop (run var evs init) \<and>
   track (plugin_stop (run var evs init)) = track (run var evs init) \<and>
   mobNotification (plugin_stop (run var evs init)) = mobNotification (run var evs init) \<and>
   messages (plugin_stop (run var evs init)) = messages (run var evs init) \<and>
   pos_live (plugin_stop (run var evs init)) = pos_live (run var evs init) \<and>
   subscribed Position (plugin_stop (run var evs init)) = subscribed Position (run var evs init)"
proof -
  let ?s = "run var evs init"
  have n: "filter (\<lambda>h. handle_topic h = Notifications) (live ?s) = unsubscribes ?s"
    using plugin_inv_reachable [of var evs] by (simp add: plugin_inv_def notif_live_def)
  have a: "notif_live (plugin_stop ?s) = []"
    using filter_out_same [OF n] by (simp add: notif_live_def plugin_stop_def call_handles_def)
  have b: "pos_live (plugin_stop ?s) = pos_live ?s"
    using filter_out_other [OF n, of "\<lambda>h. handle_topic h = Position"]
    by (simp add: pos_live_def plugin_stop_def call_handles_def)
  show ?thesis
    using a b by (simp add: subscribed_pos_live) (simp add: plugin_stop_def call_handles_def)
qed

lemma position_watch_survives_plugin_stop:
  "subscribed Position (run Part000 [Start, Notify 0 (mk_delta [mob_value (emergency_at 10 20)]), Stop] init) \<and>
   track (run Part000
     [Start, Notify 0 (mk_delta [mob_value (emergency_at 10 20)]), Stop,
      Locate rt 1000 (mk_delta [\<lparr>vp_path = ''navigation.position'', vp_value = geo_point 10 21\<rparr>])] init) =
     [\<lparr>position = geo_point 10 21, time = 1000\<rparr>]"
  by (simp add: eval_defs position_update_part000_def position_vp_part000_def track_position_def
      getMOBDelta_def split: sum.splits)

section \<open>The bow offset\<close>

lemma plane_north:
  "plane_destination (geo_point lat lon) (JNum d) (JNum 0) = Inr (geo_point (lat + d / 111120) lon)"
  by (simp add: plane_destination_def coordinate_def geo_point_def)

lemma plane_distance_meridian:
  "plane_distance (geo_point lat1 lon) (geo_point lat2 lon) acc = Inr (JNum \<bar>lat2 * 111120 - lat1 * 111120\<bar>)"
  by (simp add: plane_distance_def coordinate_def geo_point_def)

lemma plane_bearing_meridian:
  "plane_bearing (geo_point lat1 lon) (geo_point lat2 lon) = Inr (JNum (if lat1 \<le> lat2 then 0 else 180))"
  by (simp add: plane_bearing_def coordinate_def geo_point_def)

lemma radsToDeg_zero: "radsToDeg rt (JNum 0) = JNum 0"
  by (simp add: radsToDeg_def js_divide_def js_times_def js_arith_def Math_PI_def)

lemma degsToRad_180: "degsToRad rt (JNum 180) = JNum pi"
  by (simp add: degsToRad_def js_divide_def js_times_def js_arith_def Math_PI_def)

lemma js_arith_num:
  "js_minus rt (JNum a) (JNum b) = JNum (a - b)"
  "js_times rt (JNum a) (JNum b) = JNum (a * b)"
  "js_divide rt (JNum a) (JNum b) = (if b = 0 then JNaN else JNum (a / b))"
  by (simp_all add: js_divide_def js_minus_def js_times_def js_arith_def)

lemma elapsed_ten:
  "js_divide rt (js_minus rt (JNum (of_int (t0 + 10000))) (JNum (of_int t0))) (JNum 1000) = JNum 10"
  by (simp add: js_arith_num)


lemma get_prop_geo_point:
  "get_prop (geo_point a b) ''latitude'' = Inr (JNum a)"
  "get_prop (geo_point a b) ''longitude'' = Inr (JNum b)"
  by (simp_all add: geo_point_def)

lemma truthy_geo_point: "truthy (geo_point a b)"
  by (simp add: geo_point_def)

lemma getMOBDelta_raises:
  assumes "truthy pos" and "truthy (getSelfPath rt ''navigation.mob.position.value'')"
    and "computeBowLocation rt pos (getSelfPath rt ''navigation.headingTrue.value'') = Inl e"
  shows "getMOBDelta rt now pos = Inl e"
  using assms by (simp add: getMOBDelta_def Let_def)

lemma getMOBDelta_from_bow:
  assumes "truthy pos" and "truthy (getSelfPath rt ''navigation.mob.position.value'')"
    and "computeBowLocation rt pos (getSelfPath rt ''navigation.headingTrue.value'') = Inr bow"
  shows "getMOBDelta rt now pos =
    (case getRhumbLineBearing rt bow (getSelfPath rt ''navigation.mob.position.value'') of
       Inl e \<Rightarrow> Inl e
     | Inr degrees \<Rightarrow>
    (case get_prop bow ''latitude'' of
       Inl e \<Rightarrow> Inl e
     | Inr blat \<Rightarrow>
    (case get_prop bow ''longitude'' of
       Inl e \<Rightarrow> Inl e
     | Inr blon \<Rightarrow>
    (case get_prop (getSelfPath rt ''navigation.mob.position.value'') ''latitude'' of
       Inl e \<Rightarrow> Inl e
     | Inr mlat \<Rightarrow>
    (case get_prop (getSelfPath rt ''navigation.mob.position.value'') ''longitude'' of
       Inl e \<Rightarrow> Inl e
     | Inr mlon \<Rightarrow>
    (case getDistance rt
            (JObj [(''latitude'', blat), (''longitude'', blon)])
            (JObj [(''latitude'', mlat), (''longitude'', mlon)])
            (JNum (1 / 10)) of
       Inl e \<Rightarrow> Inl e
     | Inr distance \<Rightarrow>
         Inr (mk_delta
           [\<lparr>vp_path = ''navigation.mob.elapsed'',
             vp_value = js_divide rt
               (js_minus rt (JNum (of_int now)) (getSelfPath rt ''navigation.mob.time.value''))
               (JNum 1000)\<rparr>,
            \<lparr>vp_path = ''navigation.mob.distance'', vp_value = distance\<rparr>,
            \<lparr>vp_path = ''navigation.mob.bearingTrue'',
             vp_value = js_times rt degrees (js_divide rt Math_PI (JNum 180))\<rparr>])))))))"
  using assms
  by (simp add: getMOBDelta_def Let_def calc_distance_def degsToRad_def split: sum.splits)

lemma computeBowLocation_eq:
  "computeBowLocation rt pos heading =
     (if heading \<noteq> JUndefined \<and> getSelfPath rt ''sensors.gps.fromBow.value'' \<noteq> JUndefined then
        computeDestinationPoint rt pos (getSelfPath rt ''sensors.gps.fromBow.value'')
          (js_divide rt (js_times rt heading (JNum 180)) Math_PI)
      else Inr pos)"
  by (simp add: computeBowLocation_def calc_position_from_def radsToDeg_def Let_def)

text \<open>
  Claim C8. \<^verbatim>\<open>computeBowLocation\<close> returns what \<^verbatim>\<open>geolib.computeDestinationPoint\<close>
  gives for the vessel position, the distance \<^verbatim>\<open>sensors.gps.fromBow.value\<close> and the heading
  turned from radians into degrees, when neither the heading nor that distance is
  \<^verbatim>\<open>undefined\<close>, and the vessel position itself otherwise. With both positions
  available, \<^verbatim>\<open>getMOBDelta\<close> works from the position so corrected and not from the one
  it was given: it raises what the correction raises; otherwise the bearing is the
  rhumb-line bearing from the bow position to the person, turned into radians, and the
  distance is the one between the latitude and longitude of the bow position and those of
  the person, whatever other members the two positions have; and it raises what either
  library call, or the reading of a coordinate of the bow position, raises.
\<close>

theorem bow_offset_correction:
  "computeBowLocation rt pos heading =
     (if heading \<noteq> JUndefined \<and> getSelfPath rt ''sensors.gps.fromBow.value'' \<noteq> JUndefined then
        computeDestinationPoint rt pos (getSelfPath rt ''sensors.gps.fromBow.value'')
          (js_divide rt (js_times rt heading (JNum 180)) Math_PI)
      else Inr pos) \<and>
   (truthy pos \<and> truthy (getSelfPath rt ''navigation.mob.position.value'') \<longrightarrow>
      (\<forall>e. computeBowLocation rt pos (getSelfPath rt ''navigation.headingTrue.value'') = Inl e \<longrightarrow>
           getMOBDelta rt now pos = Inl e) \<and>
      (\<forall>bow. computeBowLocation rt pos (getSelfPath rt ''navigation.headingTrue.value'') = Inr bow \<longrightarrow>
         getMOBDelta rt now pos =
           (case getRhumbLineBearing rt bow (getSelfPath rt ''navigation.mob.position.value'') of
              Inl e \<Rightarrow> Inl e
            | Inr degrees \<Rightarrow>
           (case get_prop bow ''latitude'' of
              Inl e \<Rightarrow> Inl e
            | Inr blat \<Rightarrow>
           (case get_prop bow ''longitude'' of
              Inl e \<Rightarrow> Inl e
            | Inr blon \<Rightarrow>
           (case get_prop (getSelfPath rt ''navigation.mob.position.value'') ''latitude'' of
              Inl e \<Rightarrow> Inl e
            | Inr mlat \<Rightarrow>
           (case get_prop (getSelfPath rt ''navigation.mob.position.value'') ''longitude'' of
              Inl e \<Rightarrow> Inl e
            | Inr mlon \<Rightarrow>
           (case getDistance rt
                   (JObj [(''latitude'', blat), (''longitude'', blon)])
                   (JObj [(''latitude'', mlat), (''longitude'', mlon)])
                   (JNum (1 / 10)) of
              Inl e \<Rightarrow> Inl e
            | Inr distance \<Rightarrow>
                Inr (mk_delta
                  [\<lparr>vp_path = ''navigation.mob.elapsed'',
                    vp_value = js_divide rt
                      (js_minus rt (JNum (of_int now)) (getSelfPath rt ''navigation.mob.time.value''))
                      (JNum 1000)\<rparr>,
                   \<lparr>vp_path = ''navigation.mob.distance'', vp_value = distance\<rparr>,
                   \<lparr>vp_path = ''navigation.mob.bearingTrue'',
                    vp_value = js_times rt degrees (js_divide rt Math_PI (JNum 180))\<rparr>])))))))))"
proof (intro conjI impI allI)
  show "computeBowLocation rt pos heading =
     (if heading \<noteq> JUndefined \<and> getSelfPath rt ''sensors.gps.fromBow.value'' \<noteq> JUndefined then
        computeDestinationPoint rt pos (getSelfPath rt ''sensors.gps.fromBow.value'')
          (js_divide rt (js_times rt heading (JNum 180)) Math_PI)
      else Inr pos)"
    by (rule computeBowLocation_eq)
next
  fix e
  assume "truthy pos \<and> truthy (getSelfPath rt ''navigation.mob.position.value'')"
    and "computeBowLocation rt pos (getSelfPath rt ''navigation.headingTrue.value'') = Inl e"
  then show "getMOBDelta rt now pos = Inl e"
    by (simp add: getMOBDelta_raises)
next
  fix bow
  assume "truthy pos \<and> truthy (getSelfPath rt ''navigation.mob.position.value'')"
    and "computeBowLocation rt pos (getSelfPath rt ''navigation.headingTrue.value'') = Inr bow"
  then show "getMOBDelta rt now pos =
           (case getRhumbLineBearing rt bow (getSelfPath rt ''navigation.mob.position.value'') of
              Inl e \<Rightarrow> Inl e
            | Inr degrees \<Rightarrow>
           (case get_prop bow ''latitude'' of
              Inl e \<Rightarrow> Inl e
            | Inr blat \<Rightarrow>
           (case get_prop bow ''longitude'' of
              Inl e \<Rightarrow> Inl e
            | Inr blon \<Rightarrow>
           (case get_prop (getSelfPath rt ''navigation.mob.position.value'') ''latitude'' of
              Inl e \<Rightarrow> Inl e
            | Inr mlat \<Rightarrow>
           (case get_prop (getSelfPath rt ''navigation.mob.position.value'') ''longitude'' of
              Inl e \<Rightarrow> Inl e
            | Inr mlon \<Rightarrow>
           (case getDistance rt
                   (JObj [(''latitude'', blat), (''longitude'', blon)])
                   (JObj [(''latitude'', mlat), (''longitude'', mlon)])
                   (JNum (1 / 10)) of
              Inl e \<Rightarrow> Inl e
            | Inr distance \<Rightarrow>
                Inr (mk_delta
                  [\<lparr>vp_path = ''navigation.mob.elapsed'',
                    vp_value = js_divide rt
                      (js_minus rt (JNum (of_int now)) (getSelfPath rt ''navigation.mob.time.value''))
                      (JNum 1000)\<rparr>,
                   \<lparr>vp_path = ''navigation.mob.distance'', vp_value = distance\<rparr>,
                   \<lparr>vp_path = ''navigation.mob.bearingTrue'',
                    vp_value = js_times rt degrees (js_divide rt Math_PI (JNum 180))\<rparr>])))))))"
    by (simp add: getMOBDelta_from_bow)
qed

lemma example_doc_paths:
  "example_doc ''navigation.mob.position.value'' = geo_point 10 20"
  "example_doc ''navigation.mob.time.value'' = JNum 0"
  "example_doc ''navigation.headingTrue.value'' = JNum 0"
  "example_doc ''sensors.gps.fromBow.value'' = JNum 5"
  by (simp_all add: example_doc_def)

lemma plane_runtime_fields:
  "getDistance (plane_runtime doc) = plane_distance"
  "computeDestinationPoint (plane_runtime doc) = plane_destination"
  "getRhumbLineBearing (plane_runtime doc) = plane_bearing"
  "getSelfPath (plane_runtime doc) = doc"
  by (simp_all add: plane_runtime_def)

theorem bow_offset_correction_witness:
  "computeBowLocation (plane_runtime example_doc) (geo_point 10 20) (JNum 0) =
     Inr (geo_point (10 + 5 / 111120) 20) \<and>
   getMOBDelta (plane_runtime example_doc) 10000 (geo_point 10 20) =
     Inr (mk_delta
       [\<lparr>vp_path = ''navigation.mob.elapsed'', vp_value = JNum 10\<rparr>,
        \<lparr>vp_path = ''navigation.mob.distance'', vp_value = JNum 5\<rparr>,
        \<lparr>vp_path = ''navigation.mob.bearingTrue'', vp_value = JNum pi\<rparr>]) \<and>
   getMOBDelta (plane_runtime example_doc) 10000 (JStr ''aground'') = Inl GeolibError"
proof -
  let ?rt = "plane_runtime example_doc"
  note th = bow_offset_correction [of ?rt _ "JNum 0" 10000]
  have b: "computeBowLocation ?rt (geo_point 10 20) (JNum 0) = Inr (geo_point (10 + 5 / 111120) 20)"
    using th [of "geo_point 10 20"]
    by (simp add: plane_runtime_fields example_doc_paths plane_north radsToDeg_zero [unfolded radsToDeg_def])
  have r: "computeBowLocation ?rt (JStr ''aground'') (JNum 0) = Inl GeolibError"
    using th [of "JStr ''aground''"]
    by (simp add: plane_runtime_fields example_doc_paths plane_destination_def coordinate_def)
  have d: "getMOBDelta ?rt 10000 (geo_point 10 20) =
     Inr (mk_delta
       [\<lparr>vp_path = ''navigation.mob.elapsed'', vp_value = JNum 10\<rparr>,
        \<lparr>vp_path = ''navigation.mob.distance'', vp_value = JNum 5\<rparr>,
        \<lparr>vp_path = ''navigation.mob.bearingTrue'', vp_value = JNum pi\<rparr>])"
    using th [of "geo_point 10 20"] b elapsed_ten [of ?rt 0]
    by (simp add: plane_runtime_fields example_doc_paths truthy_geo_point get_prop_geo_point
        geo_point_def [symmetric] plane_bearing_meridian plane_distance_meridian
        degsToRad_180 [unfolded degsToRad_def])
  have e: "getMOBDelta ?rt 10000 (JStr ''aground'') = Inl GeolibError"
    using th [of "JStr ''aground''"] r
    by (simp add: plane_runtime_fields example_doc_paths truthy_geo_point)
  from b d e show ?thesis by simp
qed


section \<open>The round trip\<close>








end
